theory Spec2Isabelle
  imports Main
begin

section \<open>Story2Test AI: the generation pipeline of streamlit_app.py\<close>

text \<open>
  The embedding follows \<^verbatim>\<open>src/streamlit_app.py\<close>. Python values that come out of
  \<^verbatim>\<open>json.loads\<close> are a datatype; a Python \<^verbatim>\<open>dict\<close> is an association list in
  insertion order, read through \<open>map_of\<close>. Every exception is a value of \<open>py_error\<close>
  and every fallible operation returns \<open>py_error + 'a\<close> with \<open>Inl\<close> for the raise.
  Two library calls are outside the repository and are parameters of the model:
  \<^verbatim>\<open>json.loads\<close> (\<open>loads\<close>) and the chat-completion request (\<open>api\<close>).
  A dict that \<^verbatim>\<open>json.loads\<close> returns has no repeated key, so the association lists
  are meant with distinct keys. Strings are lists of Isabelle's 8-bit characters, one
  character for one element of the Python \<^verbatim>\<open>str\<close>. A pandas table is the list of its
  rows: \<^verbatim>\<open>pd.DataFrame(rows)\<close> keeps the rows and \<^verbatim>\<open>pd.concat\<close> appends them.
\<close>

subsection \<open>Python values and exceptions\<close>

typedecl pyfloat

datatype json =
    JNull
  | JBool bool
  | JInt int
  | JFloat pyfloat
  | JStr string
  | JList "json list"
  | JDict "(string \<times> json) list"

datatype py_error =
    ValueError string
  | TypeError
  | AttributeError
  | JSONDecodeError
  | OtherError string

definition bnd :: "'e + 'a \<Rightarrow> ('a \<Rightarrow> 'e + 'b) \<Rightarrow> 'e + 'b" where
  "bnd m f = (case m of Inl e \<Rightarrow> Inl e | Inr x \<Rightarrow> f x)"

text \<open>\<^verbatim>\<open>needle in hay\<close> for two strings: substring search.\<close>

fun starts_with :: "string \<Rightarrow> string \<Rightarrow> bool" where
  "starts_with [] hay = True"
| "starts_with (c # cs) [] = False"
| "starts_with (c # cs) (h # hs) = (c = h \<and> starts_with cs hs)"

fun str_contains :: "string \<Rightarrow> string \<Rightarrow> bool" where
  "str_contains needle [] = (needle = [])"
| "str_contains needle (h # hs) = (starts_with needle (h # hs) \<or> str_contains needle hs)"

text \<open>
  \<^verbatim>\<open>key in container\<close> with a string key: key membership on a dict, element
  membership on a list (a string equals only a string), substring on a string, and
  \<^verbatim>\<open>TypeError: argument of type ... is not iterable\<close> on None, bool, int and float.
\<close>

fun py_in :: "string \<Rightarrow> json \<Rightarrow> py_error + bool" where
  "py_in k (JDict kvs) = Inr (k \<in> set (map fst kvs))"
| "py_in k (JList xs) = Inr (JStr k \<in> set xs)"
| "py_in k (JStr s) = Inr (str_contains k s)"
| "py_in k JNull = Inl TypeError"
| "py_in k (JBool b) = Inl TypeError"
| "py_in k (JInt n) = Inl TypeError"
| "py_in k (JFloat x) = Inl TypeError"

text \<open>\<^verbatim>\<open>obj.get(key, default)\<close>: only a dict has the method.\<close>

definition dict_get :: "(string \<times> json) list \<Rightarrow> string \<Rightarrow> json \<Rightarrow> json" where
  "dict_get kvs k d = (case map_of kvs k of None \<Rightarrow> d | Some v \<Rightarrow> v)"

fun py_get :: "json \<Rightarrow> string \<Rightarrow> json \<Rightarrow> py_error + json" where
  "py_get (JDict kvs) k d = Inr (dict_get kvs k d)"
| "py_get JNull k d = Inl AttributeError"
| "py_get (JBool b) k d = Inl AttributeError"
| "py_get (JInt n) k d = Inl AttributeError"
| "py_get (JFloat x) k d = Inl AttributeError"
| "py_get (JStr s) k d = Inl AttributeError"
| "py_get (JList xs) k d = Inl AttributeError"

text \<open>Iteration (\<^verbatim>\<open>for t in items\<close>, the argument of \<^verbatim>\<open>str.join\<close>) and \<^verbatim>\<open>len\<close>.\<close>

fun py_iter :: "json \<Rightarrow> py_error + json list" where
  "py_iter (JList xs) = Inr xs"
| "py_iter (JStr s) = Inr (map (\<lambda>c. JStr [c]) s)"
| "py_iter (JDict kvs) = Inr (map (\<lambda>kv. JStr (fst kv)) kvs)"
| "py_iter JNull = Inl TypeError"
| "py_iter (JBool b) = Inl TypeError"
| "py_iter (JInt n) = Inl TypeError"
| "py_iter (JFloat x) = Inl TypeError"

fun py_len :: "json \<Rightarrow> py_error + nat" where
  "py_len (JList xs) = Inr (length xs)"
| "py_len (JStr s) = Inr (length s)"
| "py_len (JDict kvs) = Inr (length kvs)"
| "py_len JNull = Inl TypeError"
| "py_len (JBool b) = Inl TypeError"
| "py_len (JInt n) = Inl TypeError"
| "py_len (JFloat x) = Inl TypeError"

text \<open>
  \<^verbatim>\<open>sep.join(v)\<close>: every element of the iterable must be a \<^verbatim>\<open>str\<close>, otherwise
  TypeError.
\<close>

fun str_items :: "json list \<Rightarrow> py_error + string list" where
  "str_items [] = Inr []"
| "str_items (JStr s # vs) = bnd (str_items vs) (\<lambda>ss. Inr (s # ss))"
| "str_items (v # vs) = Inl TypeError"

fun join_strs :: "string \<Rightarrow> string list \<Rightarrow> string" where
  "join_strs sep [] = []"
| "join_strs sep [s] = s"
| "join_strs sep (s # t # ss) = s @ sep @ join_strs sep (t # ss)"

definition py_join :: "string \<Rightarrow> json \<Rightarrow> py_error + string" where
  "py_join sep v = bnd (py_iter v) (\<lambda>vs. bnd (str_items vs) (\<lambda>ss. Inr (join_strs sep ss)))"

subsection \<open>extract_json\<close>

text \<open>
  \<^verbatim>\<open>re.search(r'(\{.*\})', text, re.S)\<close>: the leftmost match starts at the first
  opening brace, and the greedy \<^verbatim>\<open>.*\<close> (which also matches newlines) runs to the last
  closing brace after it. There is no match when no closing brace follows the first
  opening brace.
\<close>

definition re_search_braces :: "string \<Rightarrow> string option" where
  "re_search_braces text =
     (let rest = dropWhile (\<lambda>c. c \<noteq> CHR ''{'') text in
      if rest = [] then None
      else
        let body = rev (dropWhile (\<lambda>c. c \<noteq> CHR ''}'') (rev (tl rest))) in
        if body = [] then None else Some (CHR ''{'' # body))"

definition raw_text_fallback :: "string \<Rightarrow> json" where
  "raw_text_fallback text = JDict [(''raw_text'', JStr text)]"

definition extract_json :: "(string \<Rightarrow> py_error + json) \<Rightarrow> string \<Rightarrow> py_error + json" where
  "extract_json loads text =
     (case loads text of
        Inr v \<Rightarrow> Inr v
      | Inl e \<Rightarrow>
          (case re_search_braces text of
             Some g \<Rightarrow>
               (case loads g of
                  Inr v \<Rightarrow> Inr v
                | Inl e' \<Rightarrow> Inr (raw_text_fallback text))
           | None \<Rightarrow> Inr (raw_text_fallback text)))"

subsection \<open>The prompt\<close>

definition nl :: string where
  "nl = [CHR 0x0A]"

definition dq :: string where
  "dq = [CHR 0x22]"

definition PROMPT_format :: "string \<Rightarrow> string" where
  "PROMPT_format ac =
     nl @ ''I will provide acceptance criteria. Produce JSON:'' @ nl
     @ ''{'' @ nl
     @ '' '' @ dq @ ''positive'' @ dq @ '': [...],'' @ nl
     @ '' '' @ dq @ ''negative'' @ dq @ '': [...]'' @ nl
     @ ''}'' @ nl
     @ ''Each test has: id, title, preconditions, steps, expected_result, priority.'' @ nl
     @ ''Generate 3-6 positive and 3-6 negative tests. JSON only.'' @ nl
     @ nl
     @ ''Acceptance Criteria:'' @ nl
     @ ac @ nl"

subsection \<open>Session state, credentials and the model client\<close>

record row =
  Type :: string
  ID :: json
  Title :: json
  Preconditions :: json
  Steps :: string
  Expected_Result :: json
  Priority :: json

record session =
  openai_api_key :: "string option"
  last_results :: "row list option"

text \<open>
  \<^verbatim>\<open>st.session_state.get("openai_api_key") or OPENAI_API_KEY\<close>: the session value when
  it is set and non-empty, otherwise the environment value read at start-up.
\<close>

definition get_api_key :: "string \<Rightarrow> session \<Rightarrow> string" where
  "get_api_key env s =
     (case openai_api_key s of
        Some k \<Rightarrow> if k \<noteq> [] then k else env
      | None \<Rightarrow> env)"

text \<open>
  \<open>call_openai\<close> threads the list of requests sent so far: a request is appended exactly
  when \<^verbatim>\<open>client.chat.completions.create\<close> is reached. \<open>api key prompt\<close> is what that call
  returns or raises.
\<close>

definition call_openai ::
  "(string \<Rightarrow> string \<Rightarrow> py_error + string) \<Rightarrow> string \<Rightarrow> session \<Rightarrow> string \<Rightarrow> string list
     \<Rightarrow> (py_error + string) \<times> string list" where
  "call_openai api env s prompt sent =
     (let api_key = get_api_key env s in
      if api_key = [] then (Inl (ValueError ''API key not set.''), sent)
      else (api api_key prompt, sent @ [prompt]))"

subsection \<open>Normalisation: to_df\<close>

definition mk_row :: "string \<Rightarrow> json \<Rightarrow> py_error + row" where
  "mk_row kind t =
     bnd (py_get t ''id'' (JStr '''')) (\<lambda>v_id.
     bnd (py_get t ''title'' (JStr '''')) (\<lambda>v_title.
     bnd (py_get t ''preconditions'' (JStr '''')) (\<lambda>v_pre.
     bnd (py_get t ''steps'' (JList [])) (\<lambda>v_steps.
     bnd (py_join nl v_steps) (\<lambda>steps.
     bnd (py_get t ''expected_result'' (JStr '''')) (\<lambda>v_exp.
     bnd (py_get t ''priority'' (JStr ''Medium'')) (\<lambda>v_prio.
       Inr \<lparr> Type = kind, ID = v_id, Title = v_title, Preconditions = v_pre,
             Steps = steps, Expected_Result = v_exp, Priority = v_prio \<rparr>)))))))"

fun to_df_loop :: "json list \<Rightarrow> string \<Rightarrow> row list \<Rightarrow> py_error + row list" where
  "to_df_loop [] kind rows = Inr rows"
| "to_df_loop (t # ts) kind rows = bnd (mk_row kind t) (\<lambda>r. to_df_loop ts kind (rows @ [r]))"

definition to_df :: "json \<Rightarrow> string \<Rightarrow> py_error + row list" where
  "to_df items kind = bnd (py_iter items) (\<lambda>ts. to_df_loop ts kind [])"

subsection \<open>The generate handler\<close>

datatype outcome =
    CredentialMissing
  | EmptyInput
  | RequestFailure py_error
  | ParseFailure string
  | Crashed py_error
  | Generated nat nat

text \<open>
  \<^verbatim>\<open>"positive" not in parsed and "negative" not in parsed\<close>, with the short circuit of
  \<^verbatim>\<open>and\<close>.
\<close>

definition lacks_both :: "json \<Rightarrow> py_error + bool" where
  "lacks_both parsed =
     bnd (py_in ''positive'' parsed) (\<lambda>has_pos.
       if has_pos then Inr False
       else bnd (py_in ''negative'' parsed) (\<lambda>has_neg. Inr (\<not> has_neg)))"

text \<open>
  The handler from the extracted value on (source lines 147 to 179). The store to
  \<^verbatim>\<open>st.session_state['last_results']\<close> comes before the success message, which
  evaluates \<^verbatim>\<open>len(pos)\<close> and \<^verbatim>\<open>len(neg)\<close>.
\<close>

definition handle_parsed :: "string \<Rightarrow> json \<Rightarrow> session \<Rightarrow> outcome \<times> session" where
  "handle_parsed raw parsed s =
     (case lacks_both parsed of
        Inl e \<Rightarrow> (Crashed e, s)
      | Inr True \<Rightarrow> (ParseFailure raw, s)
      | Inr False \<Rightarrow>
          (case bnd (py_get parsed ''positive'' (JList [])) (\<lambda>pos.
                bnd (py_get parsed ''negative'' (JList [])) (\<lambda>neg.
                bnd (to_df pos ''Positive'') (\<lambda>df_pos.
                bnd (to_df neg ''Negative'') (\<lambda>df_neg.
                  Inr (pos, neg, df_pos @ df_neg))))) of
             Inl e \<Rightarrow> (Crashed e, s)
           | Inr (pos, neg, df_all) \<Rightarrow>
               (let s' = s\<lparr>last_results := Some df_all\<rparr> in
                case bnd (py_len pos) (\<lambda>n. bnd (py_len neg) (\<lambda>m. Inr (n, m))) of
                  Inl e \<Rightarrow> (Crashed e, s')
                | Inr (n, m) \<Rightarrow> (Generated n m, s'))))"

text \<open>
  The body of \<^verbatim>\<open>if generate_btn:\<close> (source lines 128 to 179). The result is the
  outcome shown to the user, the session state and the requests sent.
\<close>

definition generate ::
  "(string \<Rightarrow> string \<Rightarrow> py_error + string) \<Rightarrow> (string \<Rightarrow> py_error + json) \<Rightarrow> string \<Rightarrow> string
     \<Rightarrow> session \<Rightarrow> string list \<Rightarrow> outcome \<times> session \<times> string list" where
  "generate api loads env ac s sent =
     (if get_api_key env s = [] then (CredentialMissing, s, sent)
      else if ac = [] then (EmptyInput, s, sent)
      else
        (case call_openai api env s (PROMPT_format ac) sent of
           (Inl e, sent') \<Rightarrow> (RequestFailure e, s, sent')
         | (Inr raw, sent') \<Rightarrow>
             (case extract_json loads raw of
                Inl e \<Rightarrow> (Crashed e, s, sent')
              | Inr parsed \<Rightarrow>
                  (case handle_parsed raw parsed s of
                     (out, s') \<Rightarrow> (out, s', sent')))))"

text \<open>The values without \<^verbatim>\<open>__contains__\<close> and \<^verbatim>\<open>__iter__\<close>: None, bool, int, float.\<close>

fun py_scalar :: "json \<Rightarrow> bool" where
  "py_scalar JNull = True"
| "py_scalar (JBool b) = True"
| "py_scalar (JInt n) = True"
| "py_scalar (JFloat x) = True"
| "py_scalar (JStr s) = False"
| "py_scalar (JList xs) = False"
| "py_scalar (JDict kvs) = False"

subsection \<open>Sample data for the worked examples\<close>

text \<open>
  \<open>sample_loads\<close> stands for \<^verbatim>\<open>json.loads\<close> in the worked examples: it agrees with it on
  every text the examples apply it to.
\<close>

definition sample_body :: string where
  "sample_body = dq @ ''positive'' @ dq @ '':[],'' @ dq @ ''negative'' @ dq @ '':[]''"

definition sample_object :: json where
  "sample_object = JDict [(''positive'', JList []), (''negative'', JList [])]"

definition sample_loads :: "string \<Rightarrow> py_error + json" where
  "sample_loads t =
     (if t = CHR ''{'' # sample_body @ [CHR ''}''] then Inr sample_object
      else if t = ''5'' then Inr (JInt 5)
      else Inl JSONDecodeError)"

definition session0 :: session where
  "session0 = \<lparr> openai_api_key = None, last_results = None \<rparr>"

definition scenario_item :: json where
  "scenario_item = JDict [(''id'', JStr ''P1''), (''title'', JStr ''Login ok''),
     (''steps'', JList [JStr ''enter email'', JStr ''enter pw'', JStr ''submit'']),
     (''priority'', JStr ''High'')]"

definition scenario_row :: row where
  "scenario_row = \<lparr> Type = ''Positive'', ID = JStr ''P1'', Title = JStr ''Login ok'',
     Preconditions = JStr '''',
     Steps = ''enter email'' @ [CHR 0x0A] @ ''enter pw'' @ [CHR 0x0A] @ ''submit'',
     Expected_Result = JStr '''', Priority = JStr ''High'' \<rparr>"

definition session_keyed :: session where
  "session_keyed = \<lparr> openai_api_key = Some ''sk-test'', last_results = Some [scenario_row] \<rparr>"

definition scenario_item2 :: json where
  "scenario_item2 = JDict [(''id'', JStr ''P2''), (''title'', JStr ''Remember me''),
     (''expected_result'', JStr ''session kept'')]"

definition scenario_row2 :: row where
  "scenario_row2 = \<lparr> Type = ''Positive'', ID = JStr ''P2'', Title = JStr ''Remember me'',
     Preconditions = JStr '''', Steps = '''',
     Expected_Result = JStr ''session kept'', Priority = JStr ''Medium'' \<rparr>"

definition scenario_neg_item :: json where
  "scenario_neg_item = JDict [(''id'', JStr ''N1''), (''title'', JStr ''Wrong password''),
     (''steps'', JList [JStr ''enter bad pw'', JStr ''submit'']),
     (''priority'', JStr ''Low'')]"

definition scenario_neg_row :: row where
  "scenario_neg_row = \<lparr> Type = ''Negative'', ID = JStr ''N1'', Title = JStr ''Wrong password'',
     Preconditions = JStr '''',
     Steps = ''enter bad pw'' @ [CHR 0x0A] @ ''submit'',
     Expected_Result = JStr '''', Priority = JStr ''Low'' \<rparr>"

definition scenario_object :: "(string \<times> json) list" where
  "scenario_object = [(''positive'', JList [scenario_item, scenario_item2]),
                      (''negative'', JList [scenario_neg_item])]"

section \<open>Properties\<close>

subsection \<open>Auxiliary facts\<close>

lemma re_search_braces_split:
  assumes "text = pre @ CHR ''{'' # mid @ CHR ''}'' # post"
    and "CHR ''{'' \<notin> set pre" and "CHR ''}'' \<notin> set post"
  shows "re_search_braces text = Some (CHR ''{'' # mid @ [CHR ''}''])"
proof -
  have a: "dropWhile (\<lambda>c. c \<noteq> CHR ''{'') text = CHR ''{'' # mid @ CHR ''}'' # post"
  proof -
    have "\<And>x. x \<in> set pre \<Longrightarrow> x \<noteq> CHR ''{''" using assms(2) by blast
    then show ?thesis using assms(1) by (simp add: dropWhile_append2)
  qed
  have b: "dropWhile (\<lambda>c. c \<noteq> CHR ''}'') (rev (mid @ CHR ''}'' # post)) = CHR ''}'' # rev mid"
  proof -
    have "dropWhile (\<lambda>c. c \<noteq> CHR ''}'') (rev post @ CHR ''}'' # rev mid)
            = dropWhile (\<lambda>c. c \<noteq> CHR ''}'') (CHR ''}'' # rev mid)"
      by (rule dropWhile_append2) (use assms(3) in auto)
    then show ?thesis by simp
  qed
  show ?thesis
    unfolding re_search_braces_def Let_def a using b by simp
qed

lemma mk_row_dict:
  "mk_row kind (JDict kvs) =
     bnd (py_join nl (dict_get kvs ''steps'' (JList []))) (\<lambda>steps.
       Inr \<lparr> Type = kind, ID = dict_get kvs ''id'' (JStr ''''),
             Title = dict_get kvs ''title'' (JStr ''''),
             Preconditions = dict_get kvs ''preconditions'' (JStr ''''),
             Steps = steps,
             Expected_Result = dict_get kvs ''expected_result'' (JStr ''''),
             Priority = dict_get kvs ''priority'' (JStr ''Medium'') \<rparr>)"
  by (simp add: mk_row_def bnd_def)

lemma str_items_map_JStr: "str_items (map JStr ss) = Inr ss"
  by (induction ss) (simp_all add: bnd_def)

lemma py_join_strs: "py_join sep (JList (map JStr ss)) = Inr (join_strs sep ss)"
  by (simp add: py_join_def bnd_def str_items_map_JStr)

lemma to_df_loop_acc:
  "list_all2 (\<lambda>t r. mk_row kind t = Inr r) ts rs \<Longrightarrow> to_df_loop ts kind acc = Inr (acc @ rs)"
  by (induction ts rs arbitrary: acc rule: list_all2_induct) (simp_all add: bnd_def)

lemma extract_json_whole: "loads text = Inr v \<Longrightarrow> extract_json loads text = Inr v"
  by (simp add: extract_json_def)

lemma extract_json_total: "\<exists>v. extract_json loads text = Inr v"
  by (simp add: extract_json_def split: sum.splits option.splits)

lemma lacks_both_dict:
  "lacks_both (JDict kvs) = Inr (''positive'' \<notin> fst ` set kvs \<and> ''negative'' \<notin> fst ` set kvs)"
  by (simp add: lacks_both_def bnd_def)

lemma mk_row_Type: "mk_row kind t = Inr r \<Longrightarrow> Type r = kind"
  by (cases t) (auto simp: mk_row_def bnd_def split: sum.splits)

lemma to_df_len: "to_df v kind = Inr rows \<Longrightarrow> \<exists>n. py_len v = Inr n"
  by (cases v) (auto simp: to_df_def bnd_def)

lemma handle_parsed_dict:
  "handle_parsed raw (JDict kvs) s =
     (if ''positive'' \<notin> fst ` set kvs \<and> ''negative'' \<notin> fst ` set kvs then (ParseFailure raw, s)
      else
        (case bnd (to_df (dict_get kvs ''positive'' (JList [])) ''Positive'') (\<lambda>df_pos.
              bnd (to_df (dict_get kvs ''negative'' (JList [])) ''Negative'') (\<lambda>df_neg.
                Inr (df_pos @ df_neg))) of
           Inl e \<Rightarrow> (Crashed e, s)
         | Inr df_all \<Rightarrow>
             (case bnd (py_len (dict_get kvs ''positive'' (JList []))) (\<lambda>n.
                   bnd (py_len (dict_get kvs ''negative'' (JList []))) (\<lambda>m. Inr (n, m))) of
                Inl e \<Rightarrow> (Crashed e, s\<lparr>last_results := Some df_all\<rparr>)
              | Inr (n, m) \<Rightarrow> (Generated n m, s\<lparr>last_results := Some df_all\<rparr>))))"
  by (simp add: handle_parsed_def lacks_both_dict bnd_def Let_def split: sum.splits)

lemma handle_parsed_state:
  assumes "handle_parsed raw parsed s = (out, s')"
  shows "((\<forall>n m. out \<noteq> Generated n m) \<longrightarrow> s' = s)
       \<and> (\<forall>n m. out = Generated n m \<longrightarrow>
            (\<exists>pos neg df_pos df_neg.
               py_get parsed ''positive'' (JList []) = Inr pos
               \<and> py_get parsed ''negative'' (JList []) = Inr neg
               \<and> to_df pos ''Positive'' = Inr df_pos \<and> to_df neg ''Negative'' = Inr df_neg
               \<and> s' = s\<lparr>last_results := Some (df_pos @ df_neg)\<rparr>))"
proof (cases "lacks_both parsed")
  case (Inl e)
  then show ?thesis using assms by (auto simp: handle_parsed_def)
next
  case (Inr b)
  show ?thesis
  proof (cases b)
    case True
    then show ?thesis using assms Inr by (auto simp: handle_parsed_def)
  next
    case False
    show ?thesis
    proof (cases "py_get parsed ''positive'' (JList [])")
      case (Inl e)
      then show ?thesis using assms Inr False by (auto simp: handle_parsed_def bnd_def)
    next
      case pos: (Inr pos)
      show ?thesis
      proof (cases "py_get parsed ''negative'' (JList [])")
        case (Inl e)
        then show ?thesis using assms Inr False pos by (auto simp: handle_parsed_def bnd_def)
      next
        case neg: (Inr neg)
        show ?thesis
        proof (cases "to_df pos ''Positive''")
          case (Inl e)
          then show ?thesis using assms Inr False pos neg by (auto simp: handle_parsed_def bnd_def)
        next
          case dp: (Inr df_pos)
          show ?thesis
          proof (cases "to_df neg ''Negative''")
            case (Inl e)
            then show ?thesis using assms Inr False pos neg dp
              by (auto simp: handle_parsed_def bnd_def)
          next
            case dn: (Inr df_neg)
            obtain n m where "py_len pos = Inr n" "py_len neg = Inr m"
              using to_df_len [OF dp] to_df_len [OF dn] by blast
            then have "out = Generated n m" "s' = s\<lparr>last_results := Some (df_pos @ df_neg)\<rparr>"
              using assms Inr False pos neg dp dn by (auto simp: handle_parsed_def bnd_def Let_def)
            then show ?thesis using pos neg dp dn by blast
          qed
        qed
      qed
    qed
  qed
qed

lemma scenario_mk_row: "mk_row ''Positive'' scenario_item = Inr scenario_row"
  by (simp add: scenario_item_def scenario_row_def mk_row_dict dict_get_def py_join_def
      bnd_def nl_def)

lemma dict_get_append_absent:
  "map_of kvs k = None \<Longrightarrow> dict_get (kvs @ [(k, d)]) k' d' =
     (if k' = k then d else dict_get kvs k' d')"
  by (auto simp: dict_get_def map_add_def split: option.splits)

lemma to_df_rows_Type:
  "list_all2 (\<lambda>t r. mk_row kind t = Inr r) ts rs \<Longrightarrow> \<forall>r \<in> set rs. Type r = kind"
  by (induction ts rs rule: list_all2_induct) (auto dest: mk_row_Type)

lemma generate_request:
  assumes "get_api_key env s \<noteq> []" and "ac \<noteq> []"
  shows "generate api loads env ac s sent =
     (case api (get_api_key env s) (PROMPT_format ac) of
        Inl e \<Rightarrow> (RequestFailure e, s, sent @ [PROMPT_format ac])
      | Inr raw \<Rightarrow>
          (case extract_json loads raw of
             Inl e \<Rightarrow> (Crashed e, s, sent @ [PROMPT_format ac])
           | Inr parsed \<Rightarrow>
               (fst (handle_parsed raw parsed s), snd (handle_parsed raw parsed s),
                sent @ [PROMPT_format ac])))"
  using assms
  by (simp add: generate_def call_openai_def Let_def split: sum.splits prod.splits)

lemma str_items_Inr: "str_items vs = Inr ss \<Longrightarrow> vs = map JStr ss"
proof (induction vs arbitrary: ss rule: str_items.induct)
  case 1
  then show ?case by simp
next
  case (2 s vs)
  then show ?case by (auto simp: bnd_def split: sum.splits)
qed simp_all

lemma py_join_Inr:
  "py_join sep v = Inr out \<Longrightarrow> \<exists>ss. py_iter v = Inr (map JStr ss) \<and> out = join_strs sep ss"
  by (auto simp: py_join_def bnd_def split: sum.splits dest: str_items_Inr)

lemma mk_row_Inr_dict: "mk_row kind t = Inr r \<Longrightarrow> \<exists>kvs. t = JDict kvs"
  by (cases t) (simp_all add: mk_row_def bnd_def)

lemma py_len_iter: "py_iter v = Inr xs \<Longrightarrow> py_len v = Inr (length xs)"
  by (cases v) auto

lemma to_df_loop_Inr:
  "to_df_loop ts kind acc = Inr out \<Longrightarrow>
     \<exists>rs. out = acc @ rs \<and> list_all2 (\<lambda>t r. mk_row kind t = Inr r) ts rs"
proof (induction ts arbitrary: acc)
  case Nil
  then show ?case by simp
next
  case (Cons t ts)
  from Cons.prems obtain r where r: "mk_row kind t = Inr r"
    and l: "to_df_loop ts kind (acc @ [r]) = Inr out"
    by (auto simp: bnd_def split: sum.splits)
  from Cons.IH [OF l] obtain rs where "out = (acc @ [r]) @ rs"
    and "list_all2 (\<lambda>t r. mk_row kind t = Inr r) ts rs" by blast
  then have "out = acc @ (r # rs) \<and> list_all2 (\<lambda>t r. mk_row kind t = Inr r) (t # ts) (r # rs)"
    using r by simp
  then show ?case by blast
qed

lemma to_df_iff:
  "(to_df v kind = Inr rs)
     = (\<exists>ts. py_iter v = Inr ts \<and> list_all2 (\<lambda>t r. mk_row kind t = Inr r) ts rs)"
proof
  assume a: "to_df v kind = Inr rs"
  then obtain ts where i: "py_iter v = Inr ts" and l: "to_df_loop ts kind [] = Inr rs"
    by (auto simp: to_df_def bnd_def split: sum.splits)
  from to_df_loop_Inr [OF l] have "list_all2 (\<lambda>t r. mk_row kind t = Inr r) ts rs" by simp
  with i show "\<exists>ts. py_iter v = Inr ts \<and> list_all2 (\<lambda>t r. mk_row kind t = Inr r) ts rs"
    by blast
next
  assume "\<exists>ts. py_iter v = Inr ts \<and> list_all2 (\<lambda>t r. mk_row kind t = Inr r) ts rs"
  then obtain ts where i: "py_iter v = Inr ts"
    and l: "list_all2 (\<lambda>t r. mk_row kind t = Inr r) ts rs" by blast
  show "to_df v kind = Inr rs"
    using i to_df_loop_acc [OF l, of "[]"] by (simp add: to_df_def bnd_def)
qed

lemma handle_parsed_Generated_dict:
  "handle_parsed raw parsed s = (Generated n m, s') \<Longrightarrow> \<exists>kvs. parsed = JDict kvs"
  by (cases parsed)
     (auto simp: handle_parsed_def lacks_both_def bnd_def split: sum.splits bool.splits if_splits)

lemma scenario_mk_row2: "mk_row ''Positive'' scenario_item2 = Inr scenario_row2"
  by (simp add: scenario_item2_def scenario_row2_def mk_row_dict dict_get_def py_join_def bnd_def)

lemma scenario_mk_neg_row: "mk_row ''Negative'' scenario_neg_item = Inr scenario_neg_row"
  by (simp add: scenario_neg_item_def scenario_neg_row_def mk_row_dict dict_get_def py_join_def
      bnd_def nl_def)

lemma handle_parsed_Generated:
  assumes "handle_parsed raw (JDict kvs) s = (Generated n m, s')"
  shows "(''positive'' \<in> fst ` set kvs \<or> ''negative'' \<in> fst ` set kvs)
       \<and> (\<exists>rp rn. to_df (dict_get kvs ''positive'' (JList [])) ''Positive'' = Inr rp
             \<and> to_df (dict_get kvs ''negative'' (JList [])) ''Negative'' = Inr rn
             \<and> py_len (dict_get kvs ''positive'' (JList [])) = Inr n
             \<and> py_len (dict_get kvs ''negative'' (JList [])) = Inr m
             \<and> s' = s\<lparr>last_results := Some (rp @ rn)\<rparr>)"
proof -
  have acc: "''positive'' \<in> fst ` set kvs \<or> ''negative'' \<in> fst ` set kvs"
    using assms by (auto simp: handle_parsed_dict split: if_splits)
  then have nacc: "\<not> (''positive'' \<notin> fst ` set kvs \<and> ''negative'' \<notin> fst ` set kvs)"
    by blast
  show ?thesis
  proof (cases "to_df (dict_get kvs ''positive'' (JList [])) ''Positive''")
    case (Inl e)
    then show ?thesis using assms nacc by (simp add: handle_parsed_dict bnd_def)
  next
    case p: (Inr rp)
    show ?thesis
    proof (cases "to_df (dict_get kvs ''negative'' (JList [])) ''Negative''")
      case (Inl e)
      then show ?thesis using assms nacc p by (simp add: handle_parsed_dict bnd_def)
    next
      case n: (Inr rn)
      obtain a b where a: "py_len (dict_get kvs ''positive'' (JList [])) = Inr a"
        and b: "py_len (dict_get kvs ''negative'' (JList [])) = Inr b"
        using to_df_len [OF p] to_df_len [OF n] by blast
      have "handle_parsed raw (JDict kvs) s = (Generated a b, s\<lparr>last_results := Some (rp @ rn)\<rparr>)"
        using nacc p n a b by (simp add: handle_parsed_dict bnd_def)
      then have "a = n" "b = m" "s' = s\<lparr>last_results := Some (rp @ rn)\<rparr>"
        using assms by simp_all
      then show ?thesis using acc p n a b by blast
    qed
  qed
qed

lemma mk_row_steps_list:
  assumes "map_of kvs ''steps'' = (if present then Some (JList (map JStr ss)) else None)"
  shows "mk_row kind (JDict kvs) =
     Inr \<lparr> Type = kind, ID = dict_get kvs ''id'' (JStr ''''),
           Title = dict_get kvs ''title'' (JStr ''''),
           Preconditions = dict_get kvs ''preconditions'' (JStr ''''),
           Steps = (if present then join_strs [CHR 0x0A] ss else ''''),
           Expected_Result = dict_get kvs ''expected_result'' (JStr ''''),
           Priority = dict_get kvs ''priority'' (JStr ''Medium'') \<rparr>"
proof (cases present)
  case True
  then have "dict_get kvs ''steps'' (JList []) = JList (map JStr ss)"
    using assms by (simp add: dict_get_def)
  then show ?thesis using True by (simp add: mk_row_dict py_join_strs bnd_def nl_def)
next
  case False
  then have "dict_get kvs ''steps'' (JList []) = JList []"
    using assms by (simp add: dict_get_def)
  then show ?thesis using False by (simp add: mk_row_dict py_join_def bnd_def)
qed

subsection \<open>The claims\<close>

text \<open>
  Claim C1, as stated: the Priority of a row is "Medium" whenever the item's
  \<^verbatim>\<open>priority\<close> value is not one of High, Medium, Low. The source reads the key with
  \<^verbatim>\<open>t.get("priority", "Medium")\<close> and never inspects the value, so an item whose
  priority is "Critical" keeps it.
\<close>
theorem priority_not_validated_counterexample:
  "JStr ''Critical'' \<notin> {JStr ''High'', JStr ''Medium'', JStr ''Low''} \<and>
   mk_row ''Positive'' (JDict [(''priority'', JStr ''Critical'')]) =
     Inr \<lparr> Type = ''Positive'', ID = JStr '''', Title = JStr '''', Preconditions = JStr '''',
           Steps = '''', Expected_Result = JStr '''', Priority = JStr ''Critical'' \<rparr>"
  by (simp add: mk_row_dict dict_get_def py_join_def bnd_def)

text \<open>
  Claim C1, amended: for every item that normalises to a row, the Priority of the row is
  "Medium" when the item has no \<^verbatim>\<open>priority\<close> key, and is the item's value otherwise,
  whatever that value is.
\<close>
theorem priority_default:
  "mk_row kind (JDict kvs) = Inr r \<Longrightarrow>
   Priority r = (case map_of kvs ''priority'' of None \<Rightarrow> JStr ''Medium'' | Some v \<Rightarrow> v)"
  by (auto simp: mk_row_dict dict_get_def bnd_def split: sum.splits)

theorem priority_default_witness:
  "mk_row ''Negative'' (JDict [(''id'', JStr ''N1'')]) =
     Inr \<lparr> Type = ''Negative'', ID = JStr ''N1'', Title = JStr '''', Preconditions = JStr '''',
           Steps = '''', Expected_Result = JStr '''', Priority = JStr ''Medium'' \<rparr>
   \<and> Priority \<lparr> Type = ''Negative'', ID = JStr ''N1'', Title = JStr '''', Preconditions = JStr '''',
           Steps = '''', Expected_Result = JStr '''', Priority = JStr ''Medium'' \<rparr> = JStr ''Medium''"
proof -
  have h: "mk_row ''Negative'' (JDict [(''id'', JStr ''N1'')]) =
     Inr \<lparr> Type = ''Negative'', ID = JStr ''N1'', Title = JStr '''', Preconditions = JStr '''',
           Steps = '''', Expected_Result = JStr '''', Priority = JStr ''Medium'' \<rparr>"
    by (simp add: mk_row_dict dict_get_def py_join_def bnd_def)
  show ?thesis using h priority_default [OF h] by simp
qed

text \<open>
  Claim C2, as stated: an object is a success exactly when it has both keys, and no table
  is produced for an object with at most one of them. The source halts only when
  \<^verbatim>\<open>"positive" not in parsed and "negative" not in parsed\<close>, and reads each list with
  \<^verbatim>\<open>parsed.get(key, [])\<close>: an object with the \<^verbatim>\<open>positive\<close> key alone is normalised
  and its table is stored.
\<close>
theorem one_key_accepted_counterexample:
  "handle_parsed ''raw'' (JDict [(''positive'', JList [scenario_item])]) session0 =
     (Generated 1 0, session0\<lparr>last_results := Some [scenario_row]\<rparr>)"
  by (simp add: handle_parsed_dict dict_get_def to_df_def bnd_def scenario_mk_row)

text \<open>
  Claim C2, amended: the handler treats an extracted object as a ParseFailure exactly when
  it has neither the \<^verbatim>\<open>positive\<close> nor the \<^verbatim>\<open>negative\<close> key; such an object halts
  the attempt and leaves the session state as it was. An object with exactly one of the
  two keys is handled as the same object with the other key added and bound to the empty
  list.
\<close>
theorem parse_failure_iff_lacks_both:
  "((\<exists>r. fst (handle_parsed raw (JDict kvs) s) = ParseFailure r)
      = (''positive'' \<notin> fst ` set kvs \<and> ''negative'' \<notin> fst ` set kvs))
   \<and> (''positive'' \<notin> fst ` set kvs \<and> ''negative'' \<notin> fst ` set kvs
        \<longrightarrow> handle_parsed raw (JDict kvs) s = (ParseFailure raw, s))
   \<and> (''positive'' \<in> fst ` set kvs \<and> ''negative'' \<notin> fst ` set kvs
        \<longrightarrow> handle_parsed raw (JDict kvs) s
            = handle_parsed raw (JDict (kvs @ [(''negative'', JList [])])) s)
   \<and> (''positive'' \<notin> fst ` set kvs \<and> ''negative'' \<in> fst ` set kvs
        \<longrightarrow> handle_parsed raw (JDict kvs) s
            = handle_parsed raw (JDict (kvs @ [(''positive'', JList [])])) s)"
proof (intro conjI impI)
  show "(\<exists>r. fst (handle_parsed raw (JDict kvs) s) = ParseFailure r)
      = (''positive'' \<notin> fst ` set kvs \<and> ''negative'' \<notin> fst ` set kvs)"
    by (auto simp: handle_parsed_dict split: sum.splits prod.splits)
next
  assume "''positive'' \<notin> fst ` set kvs \<and> ''negative'' \<notin> fst ` set kvs"
  then show "handle_parsed raw (JDict kvs) s = (ParseFailure raw, s)"
    by (simp add: handle_parsed_dict)
next
  assume a: "''positive'' \<in> fst ` set kvs \<and> ''negative'' \<notin> fst ` set kvs"
  then have n: "map_of kvs ''negative'' = None"
    by (simp add: map_of_eq_None_iff)
  have e1: "dict_get (kvs @ [(''negative'', JList [])]) ''negative'' (JList [])
          = dict_get kvs ''negative'' (JList [])"
    using n by (simp add: dict_get_append_absent) (simp add: dict_get_def)
  have e2: "dict_get (kvs @ [(''negative'', JList [])]) ''positive'' (JList [])
          = dict_get kvs ''positive'' (JList [])"
    using n by (simp add: dict_get_append_absent)
  show "handle_parsed raw (JDict kvs) s
            = handle_parsed raw (JDict (kvs @ [(''negative'', JList [])])) s"
    unfolding handle_parsed_dict e1 e2 using a by simp
next
  assume a: "''positive'' \<notin> fst ` set kvs \<and> ''negative'' \<in> fst ` set kvs"
  then have n: "map_of kvs ''positive'' = None"
    by (simp add: map_of_eq_None_iff)
  have e1: "dict_get (kvs @ [(''positive'', JList [])]) ''positive'' (JList [])
          = dict_get kvs ''positive'' (JList [])"
    using n by (simp add: dict_get_append_absent) (simp add: dict_get_def)
  have e2: "dict_get (kvs @ [(''positive'', JList [])]) ''negative'' (JList [])
          = dict_get kvs ''negative'' (JList [])"
    using n by (simp add: dict_get_append_absent)
  show "handle_parsed raw (JDict kvs) s
            = handle_parsed raw (JDict (kvs @ [(''positive'', JList [])])) s"
    unfolding handle_parsed_dict e1 e2 using a by simp
qed

theorem parse_failure_iff_lacks_both_witness:
  "handle_parsed ''no json here'' (JDict [(''raw_text'', JStr ''no json here'')]) session0
     = (ParseFailure ''no json here'', session0)
   \<and> handle_parsed ''r'' (JDict [(''positive'', JList [])]) session0
     = handle_parsed ''r'' (JDict [(''positive'', JList []), (''negative'', JList [])]) session0
   \<and> handle_parsed ''r'' (JDict [(''negative'', JList [])]) session0
     = handle_parsed ''r'' (JDict [(''negative'', JList []), (''positive'', JList [])]) session0"
  using parse_failure_iff_lacks_both
          [of "''no json here''" "[(''raw_text'', JStr ''no json here'')]" session0]
        parse_failure_iff_lacks_both [of "''r''" "[(''positive'', JList [])]" session0]
        parse_failure_iff_lacks_both [of "''r''" "[(''negative'', JList [])]" session0]
  by simp

text \<open>
  Claim C3: when the whole text parses to an object whose \<^verbatim>\<open>positive\<close> and
  \<^verbatim>\<open>negative\<close> fields are arrays, \<open>extract_json\<close> returns that object, and both keys
  read back the same arrays.
\<close>
theorem extract_json_roundtrip:
  assumes "loads text = Inr (JDict kvs)"
    and "map_of kvs ''positive'' = Some (JList ps)"
    and "map_of kvs ''negative'' = Some (JList ns)"
  shows "extract_json loads text = Inr (JDict kvs)
       \<and> py_get (JDict kvs) ''positive'' d = Inr (JList ps)
       \<and> py_get (JDict kvs) ''negative'' d = Inr (JList ns)"
  using assms by (simp add: extract_json_whole dict_get_def)

theorem extract_json_roundtrip_witness:
  "extract_json sample_loads (CHR ''{'' # sample_body @ [CHR ''}'']) = Inr sample_object"
proof -
  have a: "sample_loads (CHR ''{'' # sample_body @ [CHR ''}'']) =
      Inr (JDict [(''positive'', JList []), (''negative'', JList [])])"
    by (simp add: sample_loads_def sample_object_def)
  have b: "map_of [(''positive'', JList []), (''negative'', JList [])] ''positive'' = Some (JList [])"
    by simp
  have c: "map_of [(''positive'', JList []), (''negative'', JList [])] ''negative'' = Some (JList [])"
    by simp
  show ?thesis using extract_json_roundtrip [of sample_loads "CHR ''{'' # sample_body @ [CHR ''}'']", OF a b c] by (simp add: sample_object_def)
qed

text \<open>
  Claim C4: \<open>extract_json\<close> returns a value on every input string and never raises;
  when the whole text does not parse and the brace-delimited substring, if there is one,
  does not parse either, the value is exactly the object \<^verbatim>\<open>{"raw_text": text}\<close> with
  the text unchanged. The empty string is one such input.
\<close>
theorem extract_json_fallback:
  "(\<exists>v. extract_json loads text = Inr v) \<and>
   ((\<exists>e. loads text = Inl e) \<and> (\<forall>g. re_search_braces text = Some g \<longrightarrow> (\<exists>e. loads g = Inl e))
      \<longrightarrow> extract_json loads text = Inr (JDict [(''raw_text'', JStr text)]))"
  by (auto simp: extract_json_def raw_text_fallback_def split: sum.splits option.splits)

theorem extract_json_fallback_witness:
  "extract_json (\<lambda>t. Inl JSONDecodeError) '''' = Inr (JDict [(''raw_text'', JStr '''')])
   \<and> extract_json (\<lambda>t. Inl JSONDecodeError) ''see {oops} here''
       = Inr (JDict [(''raw_text'', JStr ''see {oops} here'')])"
  using extract_json_fallback [of "\<lambda>t. Inl JSONDecodeError" "''''"]
    extract_json_fallback [of "\<lambda>t. Inl JSONDecodeError" "''see {oops} here''"]
  by simp

text \<open>
  Claim C5: when the whole text does not parse, the substring tried is the one from the
  first opening brace to the last closing brace of the text, and when that substring
  parses, \<open>extract_json\<close> returns its value.
\<close>
theorem extract_json_embedded:
  assumes "loads text = Inl e"
    and "text = pre @ CHR ''{'' # mid @ CHR ''}'' # post"
    and "CHR ''{'' \<notin> set pre" and "CHR ''}'' \<notin> set post"
    and "loads (CHR ''{'' # mid @ [CHR ''}'']) = Inr v"
  shows "re_search_braces text = Some (CHR ''{'' # mid @ [CHR ''}''])
       \<and> extract_json loads text = Inr v"
  using assms(1,5) re_search_braces_split [OF assms(2,3,4)]
  by (simp add: extract_json_def)

theorem extract_json_embedded_witness:
  "extract_json sample_loads (''Sure: '' @ CHR ''{'' # sample_body @ CHR ''}'' # '' done.'')
     = Inr sample_object"
proof -
  have a: "sample_loads (''Sure: '' @ CHR ''{'' # sample_body @ CHR ''}'' # '' done.'')
             = Inl JSONDecodeError"
    by (simp add: sample_loads_def sample_body_def dq_def)
  have b: "CHR ''{'' \<notin> set ''Sure: ''" by simp
  have c: "CHR ''}'' \<notin> set '' done.''" by simp
  have d: "sample_loads (CHR ''{'' # sample_body @ [CHR ''}'']) = Inr sample_object"
    by (simp add: sample_loads_def)
  show ?thesis using extract_json_embedded [of sample_loads
        "''Sure: '' @ CHR ''{'' # sample_body @ CHR ''}'' # '' done.''" JSONDecodeError
        "''Sure: ''" sample_body "'' done.''" sample_object, OF a refl b c d] by simp
qed

text \<open>
  Claim C6: for every item that normalises to a row, the item is a dict, iterating its
  \<^verbatim>\<open>steps\<close> value (the empty list when the key is absent) yields strings only, and the
  Steps field of the row is those strings, in order, joined with a newline between
  neighbours; in particular it is the empty string when the \<^verbatim>\<open>steps\<close> key is absent.
  For a \<^verbatim>\<open>steps\<close> value that is a list, the strings are the elements of the list.
\<close>
theorem steps_field_joined:
  assumes "mk_row kind t = Inr r"
  shows "\<exists>kvs ss. t = JDict kvs
           \<and> py_iter (dict_get kvs ''steps'' (JList [])) = Inr (map JStr ss)
           \<and> Steps r = join_strs [CHR 0x0A] ss
           \<and> (map_of kvs ''steps'' = None \<longrightarrow> Steps r = '''')"
proof -
  obtain kvs where t: "t = JDict kvs" using mk_row_Inr_dict [OF assms] by blast
  obtain out where j: "py_join nl (dict_get kvs ''steps'' (JList [])) = Inr out"
    and s: "Steps r = out"
    using assms unfolding t mk_row_dict by (auto simp: bnd_def split: sum.splits)
  obtain ss where i: "py_iter (dict_get kvs ''steps'' (JList [])) = Inr (map JStr ss)"
    and o: "out = join_strs nl ss"
    using py_join_Inr [OF j] by blast
  have "map_of kvs ''steps'' = None \<longrightarrow> Steps r = ''''"
  proof
    assume "map_of kvs ''steps'' = None"
    then have "dict_get kvs ''steps'' (JList []) = JList []" by (simp add: dict_get_def)
    then have "ss = []" using i by simp
    then show "Steps r = ''''" using s o by simp
  qed
  then show ?thesis using t i s o by (auto simp: nl_def)
qed

theorem steps_field_joined_witness:
  "mk_row ''Positive'' (JDict [(''steps'', JList [JStr ''a'', JStr ''b''])]) =
     Inr \<lparr> Type = ''Positive'', ID = JStr '''', Title = JStr '''', Preconditions = JStr '''',
           Steps = [CHR ''a'', CHR 0x0A, CHR ''b''],
           Expected_Result = JStr '''', Priority = JStr ''Medium'' \<rparr>
   \<and> mk_row ''Negative'' (JDict [(''steps'', JStr ''abc'')]) =
     Inr \<lparr> Type = ''Negative'', ID = JStr '''', Title = JStr '''', Preconditions = JStr '''',
           Steps = [CHR ''a'', CHR 0x0A, CHR ''b'', CHR 0x0A, CHR ''c''],
           Expected_Result = JStr '''', Priority = JStr ''Medium'' \<rparr>
   \<and> mk_row ''Positive'' scenario_item2 = Inr scenario_row2
   \<and> Steps scenario_row2 = ''''"
proof -
  let ?rab = "\<lparr> Type = ''Positive'', ID = JStr '''', Title = JStr '''', Preconditions = JStr '''',
           Steps = join_strs [CHR 0x0A] [''a'', ''b''],
           Expected_Result = JStr '''', Priority = JStr ''Medium'' \<rparr>"
  let ?rs = "\<lparr> Type = ''Negative'', ID = JStr '''', Title = JStr '''', Preconditions = JStr '''',
           Steps = join_strs [CHR 0x0A] [''a'', ''b'', ''c''],
           Expected_Result = JStr '''', Priority = JStr ''Medium'' \<rparr>"
  have a: "mk_row ''Positive'' (JDict [(''steps'', JList [JStr ''a'', JStr ''b''])]) = Inr ?rab"
    by (simp add: mk_row_dict dict_get_def py_join_def bnd_def nl_def)
  have c: "mk_row ''Negative'' (JDict [(''steps'', JStr ''abc'')]) = Inr ?rs"
    by (simp add: mk_row_dict dict_get_def py_join_def bnd_def nl_def)
  note b = scenario_mk_row2
  from steps_field_joined [OF a] obtain kvs ss where
    "JDict [(''steps'', JList [JStr ''a'', JStr ''b''])] = JDict kvs"
    "py_iter (dict_get kvs ''steps'' (JList [])) = Inr (map JStr ss)"
    "Steps ?rab = join_strs [CHR 0x0A] ss"
    by blast
  then have s1: "Steps ?rab = [CHR ''a'', CHR 0x0A, CHR ''b'']"
    by (auto simp: dict_get_def map_eq_Cons_conv)
  from steps_field_joined [OF c] obtain kvs3 ss3 where
    "JDict [(''steps'', JStr ''abc'')] = JDict kvs3"
    "py_iter (dict_get kvs3 ''steps'' (JList [])) = Inr (map JStr ss3)"
    "Steps ?rs = join_strs [CHR 0x0A] ss3"
    by blast
  then have s3: "Steps ?rs = [CHR ''a'', CHR 0x0A, CHR ''b'', CHR 0x0A, CHR ''c'']"
    by (auto simp: dict_get_def map_eq_Cons_conv)
  from steps_field_joined [OF b] obtain kvs2 where
    "scenario_item2 = JDict kvs2"
    "map_of kvs2 ''steps'' = None \<longrightarrow> Steps scenario_row2 = ''''"
    by auto
  then have s2: "Steps scenario_row2 = ''''"
    by (auto simp: scenario_item2_def)
  show ?thesis using a b c s1 s2 s3 by simp
qed

text \<open>
  Claim C7: the handler reports success on an extracted value exactly when the value is a
  dict with at least one of the two keys whose \<^verbatim>\<open>positive\<close> and \<^verbatim>\<open>negative\<close> values
  (the empty list for an absent key) iterate to items \<open>ps\<close> and \<open>ns\<close> that all
  normalise, position by position, to rows \<open>rp\<close> and \<open>rn\<close>. The stored master table is
  then \<open>rp @ rn\<close>: it has \<open>length ps + length ns\<close> rows, one for each item and none
  else, the rows of the positive items first and tagged "Positive", the rows of the
  negative items after them and tagged "Negative", each group in the order of its list;
  the counts reported are \<open>length ps\<close> and \<open>length ns\<close>.
\<close>
theorem master_table_exact:
  "(handle_parsed raw parsed s = (Generated n m, s'))
     = (\<exists>kvs ps ns rp rn.
          parsed = JDict kvs
        \<and> (''positive'' \<in> fst ` set kvs \<or> ''negative'' \<in> fst ` set kvs)
        \<and> py_iter (dict_get kvs ''positive'' (JList [])) = Inr ps
        \<and> py_iter (dict_get kvs ''negative'' (JList [])) = Inr ns
        \<and> list_all2 (\<lambda>t r. mk_row ''Positive'' t = Inr r) ps rp
        \<and> list_all2 (\<lambda>t r. mk_row ''Negative'' t = Inr r) ns rn
        \<and> n = length ps \<and> m = length ns
        \<and> s' = s\<lparr>last_results := Some (rp @ rn)\<rparr>
        \<and> length (rp @ rn) = n + m
        \<and> (\<forall>r \<in> set rp. Type r = ''Positive'')
        \<and> (\<forall>r \<in> set rn. Type r = ''Negative''))"
  (is "?L = ?R")
proof
  assume l: ?L
  obtain kvs where d: "parsed = JDict kvs"
    using handle_parsed_Generated_dict [OF l] by blast
  from handle_parsed_Generated [OF l [unfolded d]] obtain rp rn
    where acc: "''positive'' \<in> fst ` set kvs \<or> ''negative'' \<in> fst ` set kvs"
      and p: "to_df (dict_get kvs ''positive'' (JList [])) ''Positive'' = Inr rp"
      and n: "to_df (dict_get kvs ''negative'' (JList [])) ''Negative'' = Inr rn"
      and lp: "py_len (dict_get kvs ''positive'' (JList [])) = Inr n"
      and ln: "py_len (dict_get kvs ''negative'' (JList [])) = Inr m"
      and s: "s' = s\<lparr>last_results := Some (rp @ rn)\<rparr>"
    by blast
  from p obtain ps where ip: "py_iter (dict_get kvs ''positive'' (JList [])) = Inr ps"
    and ap: "list_all2 (\<lambda>t r. mk_row ''Positive'' t = Inr r) ps rp"
    unfolding to_df_iff by blast
  from n obtain ns where "in": "py_iter (dict_get kvs ''negative'' (JList [])) = Inr ns"
    and an: "list_all2 (\<lambda>t r. mk_row ''Negative'' t = Inr r) ns rn"
    unfolding to_df_iff by blast
  have np: "n = length ps" using py_len_iter [OF ip] lp by simp
  have nn: "m = length ns" using py_len_iter [OF "in"] ln by simp
  have len: "length (rp @ rn) = n + m"
    using list_all2_lengthD [OF ap] list_all2_lengthD [OF an] np nn by simp
  have tp: "\<forall>r \<in> set rp. Type r = ''Positive''" by (rule to_df_rows_Type [OF ap])
  have tn: "\<forall>r \<in> set rn. Type r = ''Negative''" by (rule to_df_rows_Type [OF an])
  show ?R using d acc ip "in" ap an np nn s len tp tn by blast
next
  assume ?R
  then obtain kvs ps ns rp rn where d: "parsed = JDict kvs"
    and acc: "''positive'' \<in> fst ` set kvs \<or> ''negative'' \<in> fst ` set kvs"
    and ip: "py_iter (dict_get kvs ''positive'' (JList [])) = Inr ps"
    and "in": "py_iter (dict_get kvs ''negative'' (JList [])) = Inr ns"
    and ap: "list_all2 (\<lambda>t r. mk_row ''Positive'' t = Inr r) ps rp"
    and an: "list_all2 (\<lambda>t r. mk_row ''Negative'' t = Inr r) ns rn"
    and np: "n = length ps" and nn: "m = length ns"
    and s: "s' = s\<lparr>last_results := Some (rp @ rn)\<rparr>"
    by blast
  have p: "to_df (dict_get kvs ''positive'' (JList [])) ''Positive'' = Inr rp"
    unfolding to_df_iff using ip ap by blast
  have n: "to_df (dict_get kvs ''negative'' (JList [])) ''Negative'' = Inr rn"
    unfolding to_df_iff using "in" an by blast
  have nacc: "\<not> (''positive'' \<notin> fst ` set kvs \<and> ''negative'' \<notin> fst ` set kvs)"
    using acc by blast
  show ?L
    unfolding d using nacc p n py_len_iter [OF ip] py_len_iter [OF "in"] np nn s
    by (simp add: handle_parsed_dict bnd_def)
qed

theorem master_table_exact_witness:
  "handle_parsed ''raw'' (JDict scenario_object) session0
     = (Generated 2 1,
        session0\<lparr>last_results := Some [scenario_row, scenario_row2, scenario_neg_row]\<rparr>)
   \<and> map Type [scenario_row, scenario_row2, scenario_neg_row]
       = [''Positive'', ''Positive'', ''Negative'']
   \<and> map ID [scenario_row, scenario_row2, scenario_neg_row]
       = [JStr ''P1'', JStr ''P2'', JStr ''N1'']"
proof -
  let ?ps = "[scenario_item, scenario_item2]" and ?ns = "[scenario_neg_item]"
  let ?rp = "[scenario_row, scenario_row2]" and ?rn = "[scenario_neg_row]"
  have "\<exists>kvs ps ns rp rn.
          JDict scenario_object = JDict kvs
        \<and> (''positive'' \<in> fst ` set kvs \<or> ''negative'' \<in> fst ` set kvs)
        \<and> py_iter (dict_get kvs ''positive'' (JList [])) = Inr ps
        \<and> py_iter (dict_get kvs ''negative'' (JList [])) = Inr ns
        \<and> list_all2 (\<lambda>t r. mk_row ''Positive'' t = Inr r) ps rp
        \<and> list_all2 (\<lambda>t r. mk_row ''Negative'' t = Inr r) ns rn
        \<and> (2::nat) = length ps \<and> (1::nat) = length ns
        \<and> session0\<lparr>last_results := Some (?rp @ ?rn)\<rparr> = session0\<lparr>last_results := Some (rp @ rn)\<rparr>
        \<and> length (rp @ rn) = 2 + 1
        \<and> (\<forall>r \<in> set rp. Type r = ''Positive'')
        \<and> (\<forall>r \<in> set rn. Type r = ''Negative'')"
    apply (rule exI [of _ scenario_object])
    apply (rule exI [of _ ?ps])
    apply (rule exI [of _ ?ns])
    apply (rule exI [of _ ?rp])
    apply (rule exI [of _ ?rn])
    apply (simp add: scenario_object_def dict_get_def scenario_mk_row scenario_mk_row2
        scenario_mk_neg_row)
    apply (simp add: scenario_row_def scenario_row2_def scenario_neg_row_def)
    done
  then have "handle_parsed ''raw'' (JDict scenario_object) session0
     = (Generated 2 1, session0\<lparr>last_results := Some (?rp @ ?rn)\<rparr>)"
    by (simp only: master_table_exact)
  then show ?thesis
    by (simp add: scenario_row_def scenario_row2_def scenario_neg_row_def)
qed

text \<open>
  Claim C8: without a credential the attempt ends in CredentialMissing, and with a
  credential but an empty acceptance-criteria text it ends in EmptyInput; in both cases
  the session state and the list of requests sent are unchanged, whatever the model
  client would have answered.
\<close>
theorem no_request_without_credential_or_input:
  "(get_api_key env s = [] \<longrightarrow>
      generate api loads env ac s sent = (CredentialMissing, s, sent))
   \<and> (get_api_key env s \<noteq> [] \<and> ac = [] \<longrightarrow>
      generate api loads env ac s sent = (EmptyInput, s, sent))"
  by (simp add: generate_def)

theorem no_request_without_credential_or_input_witness:
  "generate (\<lambda>k p. Inr ''5'') sample_loads '''' ''User can log in'' session0 []
     = (CredentialMissing, session0, [])
   \<and> generate (\<lambda>k p. Inr ''5'') sample_loads '''' '''' session_keyed []
     = (EmptyInput, session_keyed, [])"
  using no_request_without_credential_or_input
          [of "''''" session0 "\<lambda>k p. Inr ''5''" sample_loads "''User can log in''" "[]"]
        no_request_without_credential_or_input
          [of "''''" session_keyed "\<lambda>k p. Inr ''5''" sample_loads "''''" "[]"]
  by (simp add: get_api_key_def session0_def session_keyed_def)

text \<open>
  Claim C9: every outcome of a generation attempt other than success, RequestFailure and
  ParseFailure among them, leaves the session state as it was; on success the state
  differs only in \<^verbatim>\<open>last_results\<close>, which holds the complete table: the rows of the whole
  positive list followed by the rows of the whole negative list of the extracted value.
\<close>
theorem failure_keeps_last_results:
  assumes "generate api loads env ac s sent = (out, s', sent')"
  shows "((\<forall>n m. out \<noteq> Generated n m) \<longrightarrow> s' = s)
       \<and> (\<forall>n m. out = Generated n m \<longrightarrow>
            (\<exists>raw parsed pos neg df_pos df_neg.
               api (get_api_key env s) (PROMPT_format ac) = Inr raw
               \<and> extract_json loads raw = Inr parsed
               \<and> py_get parsed ''positive'' (JList []) = Inr pos
               \<and> py_get parsed ''negative'' (JList []) = Inr neg
               \<and> to_df pos ''Positive'' = Inr df_pos \<and> to_df neg ''Negative'' = Inr df_neg
               \<and> s' = s\<lparr>last_results := Some (df_pos @ df_neg)\<rparr>))"
proof (cases "get_api_key env s = [] \<or> ac = []")
  case True
  then show ?thesis using assms by (auto simp: generate_def split: if_splits)
next
  case False
  then have k: "get_api_key env s \<noteq> []" and a: "ac \<noteq> []" by simp_all
  note g = generate_request [OF k a, of api loads sent]
  show ?thesis
  proof (cases "api (get_api_key env s) (PROMPT_format ac)")
    case (Inl e)
    then show ?thesis using assms g by auto
  next
    case (Inr raw)
    obtain parsed where p: "extract_json loads raw = Inr parsed"
      using extract_json_total by blast
    have "handle_parsed raw parsed s = (out, s')"
      using assms g Inr p by (simp add: prod_eq_iff)
    from handle_parsed_state [OF this] show ?thesis
      using Inr p by blast
  qed
qed

theorem failure_keeps_last_results_witness:
  "generate (\<lambda>k p. Inl (OtherError ''timeout'')) sample_loads ''sk-env'' ''User can log in''
       session_keyed []
     = (RequestFailure (OtherError ''timeout''), session_keyed, [PROMPT_format ''User can log in''])
   \<and> generate (\<lambda>k p. Inr ''no json here'') sample_loads ''sk-env'' ''User can log in''
       session_keyed []
     = (ParseFailure ''no json here'', session_keyed, [PROMPT_format ''User can log in''])"
proof -
  have a: "generate (\<lambda>k p. Inl (OtherError ''timeout'')) sample_loads ''sk-env'' ''User can log in''
       session_keyed []
     = (RequestFailure (OtherError ''timeout''),
        fst (snd (generate (\<lambda>k p. Inl (OtherError ''timeout'')) sample_loads ''sk-env''
          ''User can log in'' session_keyed [])),
        [PROMPT_format ''User can log in''])"
    by (simp add: generate_def call_openai_def get_api_key_def session_keyed_def)
  have b: "generate (\<lambda>k p. Inr ''no json here'') sample_loads ''sk-env'' ''User can log in''
       session_keyed []
     = (ParseFailure ''no json here'',
        fst (snd (generate (\<lambda>k p. Inr ''no json here'') sample_loads ''sk-env''
          ''User can log in'' session_keyed [])),
        [PROMPT_format ''User can log in''])"
    by (simp add: generate_def call_openai_def get_api_key_def session_keyed_def
        extract_json_def sample_loads_def re_search_braces_def raw_text_fallback_def
        handle_parsed_dict)
  show ?thesis
    using failure_keeps_last_results [OF a] failure_keeps_last_results [OF b] a b by simp
qed

text \<open>
  Claim C10: when the whole text parses to a value that is not an object,
  \<open>extract_json\<close> returns that value; when the value is None, a bool, an int or a float,
  the membership test of the handler raises TypeError, so the attempt ends in an uncaught
  exception and not in ParseFailure (the request was sent, the state is unchanged).
\<close>
theorem scalar_json_raises_type_error:
  assumes "loads raw = Inr v" and "\<forall>kvs. v \<noteq> JDict kvs"
  shows "extract_json loads raw = Inr v
       \<and> (py_scalar v \<and> get_api_key env s \<noteq> [] \<and> ac \<noteq> []
            \<and> api (get_api_key env s) (PROMPT_format ac) = Inr raw
          \<longrightarrow> generate api loads env ac s sent
                = (Crashed TypeError, s, sent @ [PROMPT_format ac]))"
proof (intro conjI impI)
  show e: "extract_json loads raw = Inr v" using assms(1) by (rule extract_json_whole)
  assume h: "py_scalar v \<and> get_api_key env s \<noteq> [] \<and> ac \<noteq> []
            \<and> api (get_api_key env s) (PROMPT_format ac) = Inr raw"
  then have "handle_parsed raw v s = (Crashed TypeError, s)"
    by (cases v) (simp_all add: handle_parsed_def lacks_both_def bnd_def)
  then show "generate api loads env ac s sent
                = (Crashed TypeError, s, sent @ [PROMPT_format ac])"
    using h e by (simp add: generate_request)
qed

theorem scalar_json_raises_type_error_witness:
  "extract_json sample_loads ''5'' = Inr (JInt 5)
   \<and> generate (\<lambda>k p. Inr ''5'') sample_loads ''sk-env'' ''User can log in'' session0 []
       = (Crashed TypeError, session0, [PROMPT_format ''User can log in''])"
proof -
  have a: "sample_loads ''5'' = Inr (JInt 5)"
    by (simp add: sample_loads_def)
  have b: "\<forall>kvs. JInt 5 \<noteq> JDict kvs" by simp
  show ?thesis
    using scalar_json_raises_type_error [of sample_loads "''5''" "JInt 5" "''sk-env''" session0
            "''User can log in''" "\<lambda>k p. Inr ''5''" "[]", OF a b]
    by (simp add: get_api_key_def session0_def)
qed

end
